theory Spec2Isabelle
  imports Complex_Main
begin

section \<open>The audio context of the dashboard\<close>

text \<open>
  The module \<open>context/AudioContext\<close> keeps one \<open>AudioState\<close> (React state) and one
  reference \<open>audioRef\<close> to an \<open>HTMLAudioElement\<close>. Its four commands and the three
  listeners it registers on every element it creates are the only writers of that state.

  Strings are \<open>string\<close>, and \<open>string | null\<close> is \<open>string option\<close>. A JavaScript
  \<open>number\<close> is a finite value, \<open>NaN\<close> or an infinity. The module performs no arithmetic
  on numbers, so the finite ones are taken as \<open>real\<close>. The numbers kept in the state are
  finite: a position comes from an accepted assignment or from \<open>audio.currentTime\<close>, and
  the duration read by the \<open>loadedmetadata\<close> listener is that of a resource of finite
  length.
\<close>

subsection \<open>Data\<close>

datatype number = Finite real | NaN | PosInfinity | NegInfinity

datatype js_error = Error string | TypeError

record AudioState =
  currentTrack :: "string option"
  isPlaying :: bool
  currentTime :: real
  duration :: real

text \<open>
  The part of an \<open>HTMLAudioElement\<close> that the module writes or that decides whether the
  element produces sound: its source, its \<open>paused\<close> attribute, and the value last
  assigned to \<open>currentTime\<close> or last reported by a \<open>timeupdate\<close> event. The field
  records what the module assigns; a browser may move an assigned position into the range
  of the resource.
\<close>

record HTMLAudioElement =
  src :: string
  paused :: bool
  el_currentTime :: real

text \<open>
  The provider component: the React state, the ref (an index into the elements created so
  far, \<open>None\<close> for \<open>null\<close>) and every element that \<open>new Audio\<close> has created, in order of
  creation. Elements are never removed: the listeners registered on an element stay
  registered after the ref has moved on.
\<close>

record Provider =
  audioState :: AudioState
  audioRef :: "nat option"
  elements :: "HTMLAudioElement list"

definition emptyState :: AudioState where
  "emptyState = \<lparr>currentTrack = None, isPlaying = False, currentTime = 0, duration = 0\<rparr>"

definition initial :: Provider where
  "initial = \<lparr>audioState = emptyState, audioRef = None, elements = []\<rparr>"

text \<open>The state that \<open>playTrack\<close> stores when it starts a track.\<close>

definition started :: "string \<Rightarrow> AudioState" where
  "started trackId =
     \<lparr>currentTrack = Some trackId, isPlaying = True, currentTime = 0, duration = 0\<rparr>"

subsection \<open>Operations of the audio element\<close>

definition el_pause :: "HTMLAudioElement \<Rightarrow> HTMLAudioElement" where
  "el_pause a = a\<lparr>paused := True\<rparr>"

definition el_play :: "HTMLAudioElement \<Rightarrow> HTMLAudioElement" where
  "el_play a = a\<lparr>paused := False\<rparr>"

definition el_seek :: "real \<Rightarrow> HTMLAudioElement \<Rightarrow> HTMLAudioElement" where
  "el_seek t a = a\<lparr>el_currentTime := t\<rparr>"

definition newAudio :: "string \<Rightarrow> HTMLAudioElement" where
  "newAudio trackUrl = \<lparr>src = trackUrl, paused = True, el_currentTime = 0\<rparr>"

text \<open>\<open>if (audioRef.current) { ... audioRef.current ... }\<close>: act on the referenced element, if any.\<close>

definition onCurrent :: "(HTMLAudioElement \<Rightarrow> HTMLAudioElement) \<Rightarrow> Provider \<Rightarrow> Provider" where
  "onCurrent f p =
     (case audioRef p of
        None \<Rightarrow> p
      | Some r \<Rightarrow> p\<lparr>elements := (elements p)[r := f (elements p ! r)]\<rparr>)"

definition setAudioState :: "(AudioState \<Rightarrow> AudioState) \<Rightarrow> Provider \<Rightarrow> Provider" where
  "setAudioState upd p = p\<lparr>audioState := upd (audioState p)\<rparr>"

subsection \<open>The commands\<close>

text \<open>
  The commands are closures of one render of the provider. \<open>playTrack\<close> tests
  \<open>audioState.currentTrack\<close> and \<open>audioState.isPlaying\<close> of the \<open>audioState\<close> that its
  render captured, which is its first argument \<open>rendered\<close> here; that snapshot is the
  stored state only when the call comes from a render made after the last state update.
  The ref is read when the command runs. All state updates are either functional
  (\<open>prev => ...\<close>, applied to the stored state) or replace the state as a whole.

  \<open>playTrack\<close>, \<open>pauseTrack\<close> and \<open>stopTrack\<close> contain no \<open>throw\<close>, and \<open>audio.play()\<close>
  returns a promise that the module neither awaits nor handles, so a rejected play is not
  an exception of \<open>playTrack\<close>: these commands always return a provider.
\<close>

definition playTrack :: "AudioState \<Rightarrow> string \<Rightarrow> string \<Rightarrow> Provider \<Rightarrow> Provider" where
  "playTrack rendered trackUrl trackId p =
     (if currentTrack rendered = Some trackId \<and> audioRef p \<noteq> None then
        (if isPlaying rendered
         then setAudioState (\<lambda>prev. prev\<lparr>isPlaying := False\<rparr>) (onCurrent el_pause p)
         else setAudioState (\<lambda>prev. prev\<lparr>isPlaying := True\<rparr>) (onCurrent el_play p))
      else
        (let p1 = onCurrent (\<lambda>a. el_seek 0 (el_pause a)) p;
             audio = length (elements p1);
             p2 = p1\<lparr>elements := elements p1 @ [el_play (newAudio trackUrl)],
                     audioRef := Some audio\<rparr>
         in setAudioState
              (\<lambda>prev. \<lparr>currentTrack = Some trackId, isPlaying = True,
                        currentTime = 0, duration = 0\<rparr>) p2))"

definition pauseTrack :: "Provider \<Rightarrow> Provider" where
  "pauseTrack p =
     (if audioRef p \<noteq> None
      then setAudioState (\<lambda>prev. prev\<lparr>isPlaying := False\<rparr>) (onCurrent el_pause p)
      else p)"

definition stopTrack :: "Provider \<Rightarrow> Provider" where
  "stopTrack p =
     setAudioState
       (\<lambda>prev. \<lparr>currentTrack = None, isPlaying = False, currentTime = 0, duration = 0\<rparr>)
       (onCurrent (\<lambda>a. el_seek 0 (el_pause a)) p)"

text \<open>
  \<open>audioRef.current.currentTime = time\<close> assigns to an attribute of type \<open>double\<close>: for
  \<open>NaN\<close> and the infinities the assignment throws a \<open>TypeError\<close>, before
  \<open>setAudioState\<close> is reached. Without an element nothing is assigned.
\<close>

definition setCurrentTime :: "number \<Rightarrow> Provider \<Rightarrow> js_error + Provider" where
  "setCurrentTime time p =
     (if audioRef p \<noteq> None then
        (case time of
           Finite t \<Rightarrow>
             Inr (setAudioState (\<lambda>prev. prev\<lparr>currentTime := t\<rparr>) (onCurrent (el_seek t) p))
         | NaN \<Rightarrow> Inl TypeError
         | PosInfinity \<Rightarrow> Inl TypeError
         | NegInfinity \<Rightarrow> Inl TypeError)
      else Inr p)"

subsection \<open>The listeners\<close>

text \<open>
  \<open>playTrack\<close> registers listeners for three event types on every element it creates, so
  every element of \<open>elements\<close> carries exactly these. An event is fired by the browser;
  \<open>LoadedMetadata d\<close> and \<open>TimeUpdate t\<close> carry the value of \<open>audio.duration\<close> and of
  \<open>audio.currentTime\<close> that the listener reads. No listener is registered for the
  \<open>error\<close> event, by which a media element reports that its resource cannot be loaded
  or played.
\<close>

datatype media_event = LoadedMetadata real | TimeUpdate real | Ended | ErrorEvent

definition dispatchEvent :: "nat \<Rightarrow> media_event \<Rightarrow> Provider \<Rightarrow> Provider" where
  "dispatchEvent i ev p =
     (if i < length (elements p) then
        (case ev of
           LoadedMetadata d \<Rightarrow> setAudioState (\<lambda>prev. prev\<lparr>duration := d\<rparr>) p
         | TimeUpdate t \<Rightarrow>
             setAudioState (\<lambda>prev. prev\<lparr>currentTime := t\<rparr>)
               (p\<lparr>elements := (elements p)[i := el_seek t (elements p ! i)]\<rparr>)
         | Ended \<Rightarrow> setAudioState (\<lambda>prev. prev\<lparr>isPlaying := False, currentTime := 0\<rparr>) p
         | ErrorEvent \<Rightarrow> p)
      else p)"

subsection \<open>Runs of the coordinator\<close>

text \<open>
  A run is a sequence of commands and events. \<open>Play rendered trackUrl trackId\<close> is a call
  of the \<open>playTrack\<close> of a render that captured \<open>rendered\<close>. A command that throws leaves
  the provider as it was.
\<close>

datatype action =
    Play AudioState string string
  | Pause
  | Stop
  | Seek number
  | Fire nat media_event

fun step :: "action \<Rightarrow> Provider \<Rightarrow> Provider" where
  "step (Play rendered trackUrl trackId) p = playTrack rendered trackUrl trackId p"
| "step Pause p = pauseTrack p"
| "step Stop p = stopTrack p"
| "step (Seek time) p = (case setCurrentTime time p of Inl e \<Rightarrow> p | Inr p' \<Rightarrow> p')"
| "step (Fire i ev) p = dispatchEvent i ev p"

fun run :: "action list \<Rightarrow> Provider \<Rightarrow> Provider" where
  "run [] p = p"
| "run (a # as) p = run as (step a p)"

fun fire :: "(nat \<times> media_event) list \<Rightarrow> Provider \<Rightarrow> Provider" where
  "fire [] p = p"
| "fire ((i, ev) # evs) p = fire evs (dispatchEvent i ev p)"

text \<open>
  \<open>current acts p\<close>: every \<open>playTrack\<close> of the run is called from a render of the state
  stored at the time of the call. \<open>rendered_before hist acts p\<close>: every \<open>playTrack\<close> of
  the run is called from a render of a state stored at some earlier time (\<open>hist\<close> holds
  the states stored so far), as a handler that awaits, or that issues two commands, does.
\<close>

fun current :: "action list \<Rightarrow> Provider \<Rightarrow> bool" where
  "current [] p = True"
| "current (Play rendered trackUrl trackId # as) p =
     (rendered = audioState p \<and> current as (playTrack rendered trackUrl trackId p))"
| "current (a # as) p = current as (step a p)"

fun rendered_before :: "AudioState list \<Rightarrow> action list \<Rightarrow> Provider \<Rightarrow> bool" where
  "rendered_before hist [] p = True"
| "rendered_before hist (a # as) p =
     ((case a of Play rendered trackUrl trackId \<Rightarrow> rendered \<in> set hist | _ \<Rightarrow> True)
      \<and> rendered_before (audioState (step a p) # hist) as (step a p))"

text \<open>The elements that are producing sound: those whose \<open>paused\<close> attribute is false.\<close>

definition sounding :: "Provider \<Rightarrow> nat list" where
  "sounding p = filter (\<lambda>i. \<not> paused (elements p ! i)) [0..<length (elements p)]"


text \<open>
  Well-formedness of a provider: the ref points at a created element; every element other
  than the referenced one is paused; a provider that never created an element still has
  the initial state; a provider without a track is not playing.
\<close>

definition ref_ok :: "Provider \<Rightarrow> bool" where
  "ref_ok p = (case audioRef p of None \<Rightarrow> True | Some r \<Rightarrow> r < length (elements p))"

definition quiet_others :: "Provider \<Rightarrow> bool" where
  "quiet_others p =
     list_all (\<lambda>i. paused (elements p ! i) \<or> audioRef p = Some i) [0..<length (elements p)]"

definition unused_ok :: "Provider \<Rightarrow> bool" where
  "unused_ok p = (audioRef p \<noteq> None \<or> (audioState p = emptyState \<and> elements p = []))"

definition idle_ok :: "Provider \<Rightarrow> bool" where
  "idle_ok p = (currentTrack (audioState p) \<noteq> None \<or> \<not> isPlaying (audioState p))"

fun isPlay :: "action \<Rightarrow> bool" where
  "isPlay (Play rendered trackUrl trackId) = True"
| "isPlay a = False"

text \<open>
  Two states of the scenarios of the specification: \<open>track-1\<close> started from the
  initial state, with its metadata loaded and its position reported; and the same track
  resumed, from a render of the stored state, after a pause and a further event.
\<close>

definition loaded_playing :: Provider where
  "loaded_playing =
     fire [(0, LoadedMetadata 42), (0, TimeUpdate 3)]
       (playTrack emptyState ''a.mp3'' ''track-1'' initial)"


subsection \<open>The accessor hook\<close>

text \<open>
  \<open>createContext(undefined)\<close>: \<open>useContext\<close> yields the value of the nearest enclosing
  provider, or the default \<open>undefined\<close> when the component has no enclosing provider. A
  component's position is given by the values of its enclosing providers, innermost first.
\<close>

definition useContext :: "'c list \<Rightarrow> 'c option" where
  "useContext providers = (case providers of [] \<Rightarrow> None | v # _ \<Rightarrow> Some v)"

definition useAudio :: "'c list \<Rightarrow> js_error + 'c" where
  "useAudio providers =
     (case useContext providers of
        None \<Rightarrow> Inl (Error ''useAudio must be used within an AudioProvider'')
      | Some context \<Rightarrow> Inr context)"

section \<open>Invariants of the provider\<close>

lemmas cmd_defs =
  playTrack_def pauseTrack_def stopTrack_def setCurrentTime_def dispatchEvent_def
  setAudioState_def onCurrent_def el_pause_def el_play_def el_seek_def newAudio_def

lemma emptyState_sel [simp]:
  "currentTrack emptyState = None" "isPlaying emptyState = False"
  "currentTime emptyState = 0" "duration emptyState = 0"
  by (simp_all add: emptyState_def)

lemma filter_eq_upt: "r < n \<Longrightarrow> filter (\<lambda>i. i = r) [0..<n] = [r]"
  by (induction n) (auto simp: less_Suc_eq filter_empty_conv)

lemma step_ref_ok: "ref_ok p \<Longrightarrow> ref_ok (step a p)"
  by (cases a)
    (auto simp: ref_ok_def cmd_defs Let_def
        split: option.splits media_event.splits number.splits)

lemma step_quiet: "ref_ok p \<Longrightarrow> quiet_others p \<Longrightarrow> quiet_others (step a p)"
  by (cases a)
    (auto simp: ref_ok_def quiet_others_def list_all_iff cmd_defs Let_def nth_list_update
        nth_append split: option.splits media_event.splits number.splits)

lemma step_unused_ok: "unused_ok p \<Longrightarrow> unused_ok (step a p)"
  by (cases a)
    (auto simp: unused_ok_def emptyState_def cmd_defs Let_def
        split: option.splits media_event.splits number.splits)

lemma step_idle_ok:
  assumes "idle_ok p" and "case a of Play rendered u X \<Rightarrow> rendered = audioState p | _ \<Rightarrow> True"
  shows "idle_ok (step a p)"
  using assms
  by (cases a)
    (auto simp: idle_ok_def cmd_defs Let_def
        split: option.splits media_event.splits number.splits)

lemma run_ref_ok: "ref_ok p \<Longrightarrow> ref_ok (run as p)"
  by (induction as arbitrary: p) (simp_all add: step_ref_ok)

lemma run_quiet: "ref_ok p \<Longrightarrow> quiet_others p \<Longrightarrow> quiet_others (run as p)"
  by (induction as arbitrary: p) (simp_all add: step_ref_ok step_quiet)

lemma run_unused_ok: "unused_ok p \<Longrightarrow> unused_ok (run as p)"
  by (induction as arbitrary: p) (simp_all add: step_unused_ok)

lemma run_idle_ok: "current as p \<Longrightarrow> idle_ok p \<Longrightarrow> idle_ok (run as p)"
proof (induction as arbitrary: p)
  case Nil
  then show ?case by simp
next
  case (Cons a as)
  have fresh: "case a of Play rendered u X \<Rightarrow> rendered = audioState p | _ \<Rightarrow> True"
    using Cons.prems(1) by (cases a) simp_all
  have "current as (step a p)"
    using Cons.prems(1) by (cases a) simp_all
  moreover have "idle_ok (step a p)"
    using Cons.prems(2) fresh by (rule step_idle_ok)
  ultimately show ?case using Cons.IH by simp
qed

lemma reach_ref_ok: "ref_ok (run as initial)"
  by (rule run_ref_ok) (simp add: ref_ok_def initial_def)

lemma reach_quiet: "quiet_others (run as initial)"
  by (rule run_quiet) (simp_all add: ref_ok_def quiet_others_def initial_def)

lemma reach_unused_ok: "unused_ok (run as initial)"
  by (rule run_unused_ok) (simp add: unused_ok_def initial_def)

lemma reach_idle_ok: "current as initial \<Longrightarrow> idle_ok (run as initial)"
  by (erule run_idle_ok) (simp add: idle_ok_def initial_def)

lemma fire_is_run: "fire evs p = run (map (\<lambda>(i, ev). Fire i ev) evs) p"
  by (induction evs arbitrary: p) auto

lemma fire_ref_ok: "ref_ok p \<Longrightarrow> ref_ok (fire evs p)"
  by (simp add: fire_is_run run_ref_ok)

lemma fire_quiet: "ref_ok p \<Longrightarrow> quiet_others p \<Longrightarrow> quiet_others (fire evs p)"
  by (simp add: fire_is_run run_quiet)

lemma dispatch_keeps:
  "currentTrack (audioState (dispatchEvent i ev p)) = currentTrack (audioState p)
   \<and> audioRef (dispatchEvent i ev p) = audioRef p
   \<and> map paused (elements (dispatchEvent i ev p)) = map paused (elements p)"
  by (cases ev) (simp_all add: cmd_defs map_update list_update_same_conv)

lemma fire_keeps:
  "currentTrack (audioState (fire evs p)) = currentTrack (audioState p)
   \<and> audioRef (fire evs p) = audioRef p
   \<and> map paused (elements (fire evs p)) = map paused (elements p)"
proof (induction evs arbitrary: p)
  case Nil
  then show ?case by simp
next
  case (Cons e evs)
  obtain i ev where e: "e = (i, ev)" by (cases e)
  show ?case unfolding e fire.simps using Cons.IH [of "dispatchEvent i ev p"]
    by (simp only: dispatch_keeps)
qed

lemma dispatch_not_ended:
  "ev \<noteq> Ended \<Longrightarrow>
     isPlaying (audioState (dispatchEvent i ev p)) = isPlaying (audioState p)"
  by (cases ev) (simp_all add: cmd_defs)

lemma fire_not_ended:
  "list_all (\<lambda>(i, ev). ev \<noteq> Ended) evs \<Longrightarrow>
     isPlaying (audioState (fire evs p)) = isPlaying (audioState p)"
proof (induction evs arbitrary: p)
  case Nil
  then show ?case by simp
next
  case (Cons e evs)
  obtain i ev where e: "e = (i, ev)" by (cases e)
  have "ev \<noteq> Ended" and "list_all (\<lambda>(i, ev). ev \<noteq> Ended) evs"
    using Cons.prems by (simp_all add: e)
  then show ?case unfolding e fire.simps using Cons.IH [of "dispatchEvent i ev p"]
    by (simp add: dispatch_not_ended)
qed





lemma playTrack_ref_ok: "ref_ok p \<Longrightarrow> ref_ok (playTrack seen u X p)"
  using step_ref_ok [of p "Play seen u X"] by simp

lemma playTrack_quiet:
  "ref_ok p \<Longrightarrow> quiet_others p \<Longrightarrow> quiet_others (playTrack seen u X p)"
  using step_quiet [of p "Play seen u X"] by simp


lemma playTrack_current_loaded:
  "currentTrack (audioState (playTrack (audioState p) u X p)) = Some X"
  by (auto simp: cmd_defs Let_def split: option.splits)

text \<open>The ref is \<open>null\<close> exactly as long as \<open>playTrack\<close> has never been called.\<close>

lemma step_audioRef_None:
  "audioRef (step a p) = None \<longleftrightarrow> audioRef p = None \<and> \<not> isPlay a"
  by (cases a)
    (auto simp: cmd_defs Let_def split: option.splits media_event.splits number.splits)

lemma audioRef_None_iff_never_played:
  "audioRef (run acts initial) = None \<longleftrightarrow> list_all (\<lambda>a. \<not> isPlay a) acts"
proof -
  have "audioRef (run acts p) = None \<longleftrightarrow> audioRef p = None \<and> list_all (\<lambda>a. \<not> isPlay a) acts"
    for p
    by (induction acts arbitrary: p) (auto simp: step_audioRef_None)
  then show ?thesis by (simp add: initial_def)
qed

text \<open>Which elements sound, from the invariants.\<close>

lemma sounding_cong:
  assumes "map paused (elements p) = map paused (elements q)"
  shows "sounding p = sounding q"
proof -
  have len: "length (elements p) = length (elements q)"
    using assms by (rule map_eq_imp_length_eq)
  have "paused (elements p ! i) = paused (elements q ! i)" if "i < length (elements p)" for i
    using that len nth_map [of i "elements p" paused] nth_map [of i "elements q" paused] assms
    by simp
  then show ?thesis
    unfolding sounding_def len [symmetric] by (intro filter_cong) auto
qed

lemma sounding_current:
  assumes "ref_ok p" "quiet_others p" "audioRef p = Some r" "\<not> paused (elements p ! r)"
  shows "sounding p = [r]"
proof -
  have r: "r < length (elements p)" using assms by (simp add: ref_ok_def)
  have "filter (\<lambda>i. \<not> paused (elements p ! i)) [0..<length (elements p)]
      = filter (\<lambda>i. i = r) [0..<length (elements p)]"
    using assms by (intro filter_cong) (auto simp: quiet_others_def list_all_iff)
  also have "\<dots> = [r]" using r by (rule filter_eq_upt)
  finally show ?thesis by (simp add: sounding_def)
qed

lemma sounding_none:
  assumes "quiet_others p"
    and "case audioRef p of None \<Rightarrow> True | Some r \<Rightarrow> paused (elements p ! r)"
  shows "sounding p = []"
  using assms
  by (auto simp: sounding_def quiet_others_def list_all_iff filter_empty_conv
      split: option.splits)

lemma playTrack_current_starts:
  assumes "ref_ok p"
    and "\<not> (currentTrack (audioState p) = Some X \<and> isPlaying (audioState p))"
  shows "isPlaying (audioState (playTrack (audioState p) u X p))
       \<and> (case audioRef (playTrack (audioState p) u X p) of
            None \<Rightarrow> False
          | Some r \<Rightarrow> r < length (elements (playTrack (audioState p) u X p))
              \<and> \<not> paused (elements (playTrack (audioState p) u X p) ! r))"
  using assms
  by (auto simp: ref_ok_def cmd_defs Let_def nth_append split: option.splits)

lemma paused_nth_eq:
  assumes "map paused xs = map paused ys" and "r < length ys"
  shows "paused (xs ! r) = paused (ys ! r)"
proof -
  have "length xs = length ys" using assms(1) by (rule map_eq_imp_length_eq)
  then show ?thesis
    using assms nth_map [of r xs paused] nth_map [of r ys paused] by simp
qed

lemma loaded_playing_eq:
  "loaded_playing =
     \<lparr>audioState =
        \<lparr>currentTrack = Some ''track-1'', isPlaying = True, currentTime = 3, duration = 42\<rparr>,
      audioRef = Some 0,
      elements = [\<lparr>src = ''a.mp3'', paused = False, el_currentTime = 3\<rparr>]\<rparr>"
  by (simp add: loaded_playing_def cmd_defs initial_def emptyState_def Let_def)

lemma loaded_playing_run:
  "fire [(0, LoadedMetadata 42), (0, TimeUpdate 3)]
       (playTrack (audioState (run [] initial)) ''a.mp3'' ''track-1'' (run [] initial))
     = loaded_playing"
  by (simp add: loaded_playing_def initial_def emptyState_def)

section \<open>Properties of the commands and listeners\<close>




text \<open>
  C2, amended. From every reachable state in which \<open>X\<close> is not the track that is playing,
  two calls of \<open>playTrack\<close> for \<open>X\<close>, each from a render of the state stored at the time
  of the call, with only events other than \<open>ended\<close> between them: the first call starts
  or resumes \<open>X\<close>, whose element is then the only one that sounds; the second keeps \<open>X\<close>
  the active track, sets \<open>isPlaying\<close> to false and pauses that element, so that no
  element sounds.
\<close>

theorem playTrack_twice_pauses:
  assumes "\<not> (currentTrack (audioState (run acts initial)) = Some X
            \<and> isPlaying (audioState (run acts initial)))"
    and "list_all (\<lambda>(i, ev). ev \<noteq> Ended) mids"
  shows "let p = run acts initial;
             p1 = fire mids (playTrack (audioState p) u X p);
             p2 = playTrack (audioState p1) u' X p1 in
     isPlaying (audioState p1) = True
   \<and> currentTrack (audioState p1) = Some X
   \<and> (case audioRef p1 of None \<Rightarrow> False | Some r \<Rightarrow> sounding p1 = [r])
   \<and> isPlaying (audioState p2) = False
   \<and> currentTrack (audioState p2) = Some X
   \<and> audioRef p2 = audioRef p1
   \<and> sounding p2 = []"
proof -
  define p where "p = run acts initial"
  define p0 where "p0 = playTrack (audioState p) u X p"
  define p1 where "p1 = fire mids p0"
  define p2 where "p2 = playTrack (audioState p1) u' X p1"
  have ok: "ref_ok p" and q: "quiet_others p"
    by (simp_all add: p_def reach_ref_ok reach_quiet)
  have ok0: "ref_ok p0" and q0: "quiet_others p0"
    using ok q by (simp_all add: p0_def playTrack_ref_ok playTrack_quiet)
  have ok1: "ref_ok p1" and q1: "quiet_others p1"
    using ok0 q0 by (simp_all add: p1_def fire_ref_ok fire_quiet)
  have ok2: "ref_ok p2" and q2: "quiet_others p2"
    using ok1 q1 by (simp_all add: p2_def playTrack_ref_ok playTrack_quiet)
  have start: "isPlaying (audioState p0)
       \<and> (case audioRef p0 of None \<Rightarrow> False
          | Some r \<Rightarrow> r < length (elements p0) \<and> \<not> paused (elements p0 ! r))"
    unfolding p0_def using ok assms(1) unfolding p_def [symmetric]
    by (rule playTrack_current_starts)
  then obtain r where r: "audioRef p0 = Some r" "r < length (elements p0)"
      "\<not> paused (elements p0 ! r)"
    by (auto split: option.splits)
  have tr0: "currentTrack (audioState p0) = Some X"
    by (simp add: p0_def playTrack_current_loaded)
  have keep: "currentTrack (audioState p1) = Some X" "audioRef p1 = Some r"
      "map paused (elements p1) = map paused (elements p0)"
    using fire_keeps [of mids p0] tr0 r(1) by (simp_all add: p1_def)
  have play1: "isPlaying (audioState p1)"
    using fire_not_ended [OF assms(2), of p0] start by (simp add: p1_def)
  have "\<not> paused (elements p1 ! r)"
    using paused_nth_eq [OF keep(3) r(2)] r(3) by simp
  then have s1: "sounding p1 = [r]"
    using ok1 q1 keep(2) by (intro sounding_current) auto
  have rl: "r < length (elements p1)" using ok1 keep(2) by (simp add: ref_ok_def)
  have st2: "isPlaying (audioState p2) = False \<and> currentTrack (audioState p2) = Some X
      \<and> audioRef p2 = audioRef p1 \<and> paused (elements p2 ! r)"
    using keep(1,2) play1 rl by (simp add: p2_def cmd_defs)
  have s2: "sounding p2 = []"
    using q2 st2 keep(2) by (intro sounding_none) (auto split: option.splits)
  show ?thesis
    unfolding Let_def p_def [symmetric] p0_def [symmetric] p1_def [symmetric]
      p2_def [symmetric]
    using play1 keep s1 st2 s2 by simp
qed

theorem playTrack_twice_pauses_witness:
  "\<not> (currentTrack (audioState (run [] initial)) = Some ''track-1''
        \<and> isPlaying (audioState (run [] initial)))
   \<and> list_all (\<lambda>(i, ev). ev \<noteq> Ended) [(0 :: nat, LoadedMetadata 42), (0, TimeUpdate 3)]
   \<and> audioState loaded_playing
     = \<lparr>currentTrack = Some ''track-1'', isPlaying = True, currentTime = 3, duration = 42\<rparr>
   \<and> sounding loaded_playing = [0]
   \<and> audioState (playTrack (audioState loaded_playing) ''a.mp3'' ''track-1'' loaded_playing)
     = \<lparr>currentTrack = Some ''track-1'', isPlaying = False, currentTime = 3, duration = 42\<rparr>
   \<and> sounding (playTrack (audioState loaded_playing) ''a.mp3'' ''track-1'' loaded_playing) = []"
proof -
  have h1: "\<not> (currentTrack (audioState (run [] initial)) = Some ''track-1''
        \<and> isPlaying (audioState (run [] initial)))"
    by (simp add: initial_def)
  have h2: "list_all (\<lambda>(i, ev). ev \<noteq> Ended) [(0 :: nat, LoadedMetadata 42), (0, TimeUpdate 3)]"
    by simp
  have t: "(case audioRef loaded_playing of None \<Rightarrow> False
            | Some r \<Rightarrow> sounding loaded_playing = [r])
      \<and> sounding (playTrack (audioState loaded_playing) ''a.mp3'' ''track-1'' loaded_playing)
          = []"
    using playTrack_twice_pauses [OF h1 h2, of "''a.mp3''" "''a.mp3''"]
    unfolding Let_def loaded_playing_run by blast
  have "audioRef loaded_playing = Some 0" by (simp add: loaded_playing_eq)
  with t have s: "sounding loaded_playing = [0]" by simp
  have st: "audioState (playTrack (audioState loaded_playing) ''a.mp3'' ''track-1''
        loaded_playing)
     = \<lparr>currentTrack = Some ''track-1'', isPlaying = False, currentTime = 3, duration = 42\<rparr>"
    by (simp add: loaded_playing_eq cmd_defs)
  show ?thesis using h1 h2 t s st by (simp add: loaded_playing_eq)
qed

text \<open>
  The law does not hold for every state and every pair of calls. When \<open>X\<close> is already
  playing, the first of two calls from renders of the stored state pauses it and the
  second resumes it. And two calls from one and the same render of the initial state both start the
  track: the second call still sees no active track, creates a second element, and
  \<open>isPlaying\<close> is true.
\<close>

theorem toggle_already_playing_counterexample:
  "audioState (run [Play emptyState ''a.mp3'' ''track-1''] initial) = started ''track-1''
   \<and> isPlaying (audioState (run
        [Play emptyState ''a.mp3'' ''track-1'',
         Play (started ''track-1'') ''a.mp3'' ''track-1'',
         Play ((started ''track-1'')\<lparr>isPlaying := False\<rparr>) ''a.mp3'' ''track-1''] initial))
       \<noteq> False
   \<and> current [Play emptyState ''a.mp3'' ''track-1'',
         Play (started ''track-1'') ''a.mp3'' ''track-1'',
         Play ((started ''track-1'')\<lparr>isPlaying := False\<rparr>) ''a.mp3'' ''track-1''] initial
   \<and> isPlaying (audioState
        (playTrack emptyState ''a.mp3'' ''track-1''
          (playTrack emptyState ''a.mp3'' ''track-1'' initial))) \<noteq> False
   \<and> length (elements
        (playTrack emptyState ''a.mp3'' ''track-1''
          (playTrack emptyState ''a.mp3'' ''track-1'' initial))) = 2"
  by (simp add: cmd_defs initial_def emptyState_def started_def Let_def)

text \<open>
  C3, amended. In every reachable state, \<open>stopTrack\<close> leaves the state at the empty
  default, pauses the referenced element and rewinds it to \<open>0\<close>, so that no element sounds;
  the ref itself is kept.
\<close>

theorem stopTrack_resets_state:
  "let p = run acts initial; p' = stopTrack p in
     audioState p' = emptyState
   \<and> sounding p' = []
   \<and> audioRef p' = audioRef p
   \<and> (case audioRef p of None \<Rightarrow> True
       | Some r \<Rightarrow> paused (elements p' ! r) \<and> el_currentTime (elements p' ! r) = 0)"
proof -
  define p where "p = run acts initial"
  define p' where "p' = stopTrack p"
  have ok: "ref_ok p" and q: "quiet_others p"
    by (simp_all add: p_def reach_ref_ok reach_quiet)
  have st: "audioState p' = emptyState \<and> audioRef p' = audioRef p"
    by (simp add: p'_def cmd_defs emptyState_def split: option.splits)
  have old: "case audioRef p of None \<Rightarrow> True
       | Some r \<Rightarrow> paused (elements p' ! r) \<and> el_currentTime (elements p' ! r) = 0"
    using ok by (auto simp: p'_def ref_ok_def cmd_defs split: option.splits)
  have q': "quiet_others p'"
    using step_quiet [OF ok q, of Stop] by (simp add: p'_def)
  have "sounding p' = []"
    using q' old st by (intro sounding_none) (auto split: option.splits)
  with st old show ?thesis
    by (simp add: p_def p'_def Let_def cong: option.case_cong)
qed

text \<open>
  The resource is not released by \<open>stopTrack\<close>: after a play and a stop the state is the
  empty default, but the ref still holds the element.
\<close>

theorem stopTrack_keeps_handle_counterexample:
  "\<not> (audioState (run [Play emptyState ''a.mp3'' ''track-1'', Stop] initial) = emptyState
      \<and> audioRef (run [Play emptyState ''a.mp3'' ''track-1'', Stop] initial) = None)"
  by (simp add: cmd_defs initial_def emptyState_def Let_def)

text \<open>
  C4, amended. In every state reachable from the initial one by commands and listener
  calls: when no element has been created yet, the whole state is the empty default; and
  when every \<open>playTrack\<close> of the run was called from a render of the state stored at the
  time of the call, no active track implies that \<open>isPlaying\<close> is false.
\<close>

theorem idle_implies_not_playing:
  "(current acts initial \<longrightarrow> currentTrack (audioState (run acts initial)) = None
      \<longrightarrow> isPlaying (audioState (run acts initial)) = False)
   \<and> (audioRef (run acts initial) = None \<longrightarrow> audioState (run acts initial) = emptyState)"
  using reach_idle_ok [of acts] reach_unused_ok [of acts]
  by (auto simp: idle_ok_def unused_ok_def)

theorem idle_implies_not_playing_witness:
  "current [Play emptyState ''a.mp3'' ''track-1'', Stop, Seek (Finite 5)] initial
   \<and> currentTrack (audioState
        (run [Play emptyState ''a.mp3'' ''track-1'', Stop, Seek (Finite 5)] initial)) = None
   \<and> isPlaying (audioState
        (run [Play emptyState ''a.mp3'' ''track-1'', Stop, Seek (Finite 5)] initial)) = False
   \<and> audioRef (run [Seek (Finite 5), Pause, Stop] initial) = None
   \<and> audioState (run [Seek (Finite 5), Pause, Stop] initial) = emptyState"
  using idle_implies_not_playing [of "[Play emptyState ''a.mp3'' ''track-1'', Stop, Seek (Finite 5)]"]
    idle_implies_not_playing [of "[Seek (Finite 5), Pause, Stop]"]
  by (simp add: cmd_defs initial_def emptyState_def Let_def)

text \<open>
  Without an active track the rest of the state need not be zeroed. After a play and a
  stop the ref still holds the element, so a seek writes the position, and the
  \<open>loadedmetadata\<close> listener of the stopped element writes the duration. And a
  \<open>playTrack\<close> captured by a render that showed the track paused, called after a stop,
  takes the resume branch: \<open>isPlaying\<close> is true with no active track.
\<close>

theorem idle_not_zeroed_counterexample:
  "currentTrack (audioState
        (run [Play emptyState ''a.mp3'' ''track-1'', Stop, Seek (Finite 5)] initial)) = None
   \<and> currentTime (audioState
        (run [Play emptyState ''a.mp3'' ''track-1'', Stop, Seek (Finite 5)] initial)) \<noteq> 0
   \<and> currentTrack (audioState
        (run [Play emptyState ''a.mp3'' ''track-1'', Stop, Fire 0 (LoadedMetadata 42)] initial))
       = None
   \<and> duration (audioState
        (run [Play emptyState ''a.mp3'' ''track-1'', Stop, Fire 0 (LoadedMetadata 42)] initial))
       \<noteq> 0
   \<and> rendered_before [audioState initial]
        [Play emptyState ''a.mp3'' ''track-1'', Pause, Stop,
         Play ((started ''track-1'')\<lparr>isPlaying := False\<rparr>) ''a.mp3'' ''track-1''] initial
   \<and> currentTrack (audioState (run
        [Play emptyState ''a.mp3'' ''track-1'', Pause, Stop,
         Play ((started ''track-1'')\<lparr>isPlaying := False\<rparr>) ''a.mp3'' ''track-1''] initial))
       = None
   \<and> isPlaying (audioState (run
        [Play emptyState ''a.mp3'' ''track-1'', Pause, Stop,
         Play ((started ''track-1'')\<lparr>isPlaying := False\<rparr>) ''a.mp3'' ''track-1''] initial))
       \<noteq> False"
  by (simp add: cmd_defs initial_def emptyState_def started_def Let_def)

text \<open>
  C5, amended. When the \<open>ended\<close> event of an element fires, the listener sets
  \<open>isPlaying\<close> to false and the position to \<open>0\<close>; the active track, the duration and
  the ref are unchanged, so the track stays loaded and paused at its start.
\<close>

theorem ended_pauses_and_rewinds:
  assumes "i < length (elements p)"
  shows "audioState (dispatchEvent i Ended p)
         = (audioState p)\<lparr>isPlaying := False, currentTime := 0\<rparr>
       \<and> currentTrack (audioState (dispatchEvent i Ended p)) = currentTrack (audioState p)
       \<and> duration (audioState (dispatchEvent i Ended p)) = duration (audioState p)
       \<and> audioRef (dispatchEvent i Ended p) = audioRef p"
  using assms by (simp add: cmd_defs)

theorem ended_pauses_and_rewinds_witness:
  "0 < length (elements
        (run [Play emptyState ''a.mp3'' ''track-1'', Fire 0 (TimeUpdate 7)] initial))
   \<and> audioState (dispatchEvent 0 Ended
        (run [Play emptyState ''a.mp3'' ''track-1'', Fire 0 (TimeUpdate 7)] initial))
       = \<lparr>currentTrack = Some ''track-1'', isPlaying = False, currentTime = 0, duration = 0\<rparr>"
  using ended_pauses_and_rewinds
    [of 0 "run [Play emptyState ''a.mp3'' ''track-1'', Fire 0 (TimeUpdate 7)] initial"]
  by (simp add: cmd_defs initial_def emptyState_def Let_def)

text \<open>
  The state is not the idle one after the end of a track: the track is still active and
  its duration is still known.
\<close>

theorem ended_keeps_track_counterexample:
  "currentTrack (audioState
      (run [Play emptyState ''a.mp3'' ''track-1'', Fire 0 (LoadedMetadata 42), Fire 0 Ended]
        initial))
     = Some ''track-1''
   \<and> duration (audioState
      (run [Play emptyState ''a.mp3'' ''track-1'', Fire 0 (LoadedMetadata 42), Fire 0 Ended]
        initial)) = 42"
  by (simp add: cmd_defs initial_def emptyState_def Let_def)




text \<open>
  C7, amended. With an element referenced, \<open>setCurrentTime\<close> with a finite value stores
  that value as the position exactly as given, whatever the duration, assigns it to the
  \<open>currentTime\<close> of the referenced element, changes nothing else of the state and returns
  normally; with \<open>NaN\<close> or an infinity it throws a \<open>TypeError\<close> and, in a run, leaves
  the provider as it was.
\<close>

theorem setCurrentTime_stores_value:
  assumes "audioRef p \<noteq> None"
  shows "isl (setCurrentTime (Finite t) p) = False
       \<and> audioState (projr (setCurrentTime (Finite t) p)) = (audioState p)\<lparr>currentTime := t\<rparr>
       \<and> currentTime (audioState (projr (setCurrentTime (Finite t) p))) = t
       \<and> audioRef (projr (setCurrentTime (Finite t) p)) = audioRef p
       \<and> map el_currentTime (elements (projr (setCurrentTime (Finite t) p)))
           = (case audioRef p of
                None \<Rightarrow> map el_currentTime (elements p)
              | Some r \<Rightarrow> (map el_currentTime (elements p))[r := t])
       \<and> setCurrentTime NaN p = Inl TypeError
       \<and> setCurrentTime PosInfinity p = Inl TypeError
       \<and> setCurrentTime NegInfinity p = Inl TypeError
       \<and> step (Seek NaN) p = p \<and> step (Seek PosInfinity) p = p \<and> step (Seek NegInfinity) p = p"
  using assms by (auto simp: cmd_defs map_update)

theorem setCurrentTime_stores_value_witness:
  "audioRef loaded_playing \<noteq> None
   \<and> audioState (projr (setCurrentTime (Finite 100) loaded_playing))
       = \<lparr>currentTrack = Some ''track-1'', isPlaying = True, currentTime = 100, duration = 42\<rparr>
   \<and> map el_currentTime (elements (projr (setCurrentTime (Finite 100) loaded_playing))) = [100]
   \<and> setCurrentTime PosInfinity loaded_playing = Inl TypeError"
  using setCurrentTime_stores_value [of loaded_playing 100]
  by (simp add: loaded_playing_eq)

text \<open>
  The position is not clamped, and not every value is accepted: with a duration of \<open>42\<close>,
  seeking to \<open>100\<close> does not leave the position at \<open>42\<close>, seeking to \<open>-5\<close> does not
  leave it at \<open>0\<close>, and seeking to \<open>+Infinity\<close> throws.
\<close>

theorem seek_not_clamped_counterexample:
  "duration (audioState loaded_playing) = 42
   \<and> currentTime (audioState (run [Seek (Finite 100)] loaded_playing)) \<noteq> 42
   \<and> currentTime (audioState (run [Seek (Finite (- 5))] loaded_playing)) \<noteq> 0
   \<and> setCurrentTime PosInfinity loaded_playing = Inl TypeError"
  by (simp add: loaded_playing_eq cmd_defs)

text \<open>
  C8, amended. When the ref holds no element (by \<open>audioRef_None_iff_never_played\<close>: before
  the first \<open>playTrack\<close>), \<open>setCurrentTime\<close> returns normally for every number and leaves
  the whole provider unchanged.
\<close>

theorem setCurrentTime_without_element_noop:
  assumes "audioRef p = None"
  shows "setCurrentTime time p = Inr p"
  using assms by (simp add: setCurrentTime_def)

theorem setCurrentTime_without_element_noop_witness:
  "audioRef initial = None \<and> setCurrentTime (Finite 5) initial = Inr initial"
  using setCurrentTime_without_element_noop [of initial "Finite 5"] by (simp add: initial_def)

text \<open>
  After a play and a stop no track is active, yet the ref still holds the element and a
  seek changes the state.
\<close>

theorem seek_after_stop_counterexample:
  "currentTrack (audioState (run [Play emptyState ''a.mp3'' ''track-1'', Stop] initial)) = None
   \<and> setCurrentTime (Finite 5) (run [Play emptyState ''a.mp3'' ''track-1'', Stop] initial)
       \<noteq> Inr (run [Play emptyState ''a.mp3'' ''track-1'', Stop] initial)"
  by (simp add: cmd_defs initial_def emptyState_def Let_def)

text \<open>
  C9. The code at the failing input: \<open>playTrack\<close> for a resource that cannot be loaded,
  from the initial state, followed by the \<open>error\<close> event of the new element. No listener
  handles the event, and the state still says that the track is playing.
\<close>

theorem failed_play_stays_playing:
  "audioState (run [Play emptyState ''missing.mp3'' ''track-1'', Fire 0 ErrorEvent] initial)
     = \<lparr>currentTrack = Some ''track-1'', isPlaying = True, currentTime = 0, duration = 0\<rparr>"
  by (simp add: cmd_defs initial_def emptyState_def Let_def)

text \<open>
  C10. Outside any \<open>AudioProvider\<close> the hook \<open>useAudio\<close> throws the error
  "useAudio must be used within an AudioProvider" and returns nothing; inside a provider
  it returns the value of the enclosing provider, the shared coordinator.
\<close>

theorem useAudio_outside_throws_inside_returns:
  "useAudio ([] :: 'c list) = Inl (Error ''useAudio must be used within an AudioProvider'')
   \<and> useAudio (ctx # outer) = Inr ctx"
  by (simp add: useAudio_def useContext_def)


end
